theory Spec2Isabelle
  imports Main "HOL-Library.Sublist"
begin

section \<open>netrender/utils.py: the farm coordination helpers\<close>

text \<open>
  A shallow embedding of the helpers of \<^verbatim>\<open>netrender/utils.py\<close>: the interruptible
  back-off sleeper, the URL templates, the path remapper, master discovery and the
  version handshake. Python integers are \<open>int\<close>, \<open>str\<close> and \<open>bytes\<close> values are
  \<open>string\<close>, a raised exception is the \<open>Inl\<close> branch of a sum, and everything a
  function does to the outside (sleeping, printing, reporting, the file system, the
  connection) is threaded through explicitly.
\<close>

subsection \<open>Exceptions\<close>

text \<open>The Python exceptions that can leave the modelled functions, with their message.\<close>

datatype exn =
    IndexError string
  | ValueError string
  | IOError string
  | OSError string
  | UnicodeDecodeError string
  | TypeError string

fun exn_str :: "exn \<Rightarrow> string" where
  "exn_str (IndexError m) = m"
| "exn_str (ValueError m) = m"
| "exn_str (IOError m) = m"
| "exn_str (OSError m) = m"
| "exn_str (UnicodeDecodeError m) = m"
| "exn_str (TypeError m) = m"

subsection \<open>BreakableIncrementedSleep\<close>

text \<open>
  What a \<^verbatim>\<open>sleep()\<close> call does to the outside, in order: \<open>Slept\<close> is one
  \<^verbatim>\<open>time.sleep(1)\<close>, \<open>Checked b\<close> is one call of the break function that answered
  \<open>b\<close>, \<open>Increased\<close> is one call of \<^verbatim>\<open>self.increase()\<close>.
\<close>

datatype event = Slept | Checked bool | Increased

text \<open>
  The fields of the class. \<^verbatim>\<open>self.default\<close> and \<^verbatim>\<open>self.max\<close> carry the names of
  the constructor's parameters, since \<open>default\<close> and \<open>max\<close> are constants of HOL.
  The break function is a caller-supplied callable without arguments; its answer may
  depend on everything that happened so far, so it reads the trace of events.
\<close>

record BreakableIncrementedSleep =
  increment :: int
  default_timeout :: int
  max_timeout :: int
  current :: int
  break_fct :: "event list \<Rightarrow> bool"

definition init :: "int \<Rightarrow> int \<Rightarrow> int \<Rightarrow> (event list \<Rightarrow> bool) \<Rightarrow> BreakableIncrementedSleep" where
  "init incr default_t max_t brk =
     \<lparr> increment = incr, default_timeout = default_t, max_timeout = max_t,
       current = default_t, break_fct = brk \<rparr>"

definition reset :: "BreakableIncrementedSleep \<Rightarrow> BreakableIncrementedSleep" where
  "reset s = s\<lparr>current := default_timeout s\<rparr>"

definition increase :: "BreakableIncrementedSleep \<Rightarrow> BreakableIncrementedSleep" where
  "increase s = s\<lparr>current := min (current s + increment s) (max_timeout s)\<rparr>"

text \<open>
  The loop \<^verbatim>\<open>for i in range(self.current)\<close>: \<open>n\<close> is the number of iterations left,
  \<open>tr\<close> the trace so far. Each iteration sleeps one unit, then asks the break function,
  and leaves the loop when it answers true.
\<close>

fun sleep_loop :: "(event list \<Rightarrow> bool) \<Rightarrow> nat \<Rightarrow> event list \<Rightarrow> event list" where
  "sleep_loop brk 0 tr = tr"
| "sleep_loop brk (Suc n) tr =
     (let tr1 = tr @ [Slept];
          b = brk tr1;
          tr2 = tr1 @ [Checked b]
      in if b then tr2 else sleep_loop brk n tr2)"

text \<open>\<^verbatim>\<open>range(n)\<close> is empty for \<open>n \<le> 0\<close>, hence \<open>nat (current s)\<close> iterations.\<close>

definition sleep :: "BreakableIncrementedSleep \<Rightarrow> event list \<Rightarrow> BreakableIncrementedSleep \<times> event list" where
  "sleep s tr =
     (let tr' = sleep_loop (break_fct s) (nat (current s)) tr
      in (increase s, tr' @ [Increased]))"

text \<open>A finite sequence of \<^verbatim>\<open>reset()\<close> and \<^verbatim>\<open>increase()\<close> calls, applied in order.\<close>

datatype call = Reset | Increase

fun apply_call :: "call \<Rightarrow> BreakableIncrementedSleep \<Rightarrow> BreakableIncrementedSleep" where
  "apply_call Reset s = reset s"
| "apply_call Increase s = increase s"

fun run :: "call list \<Rightarrow> BreakableIncrementedSleep \<Rightarrow> BreakableIncrementedSleep" where
  "run [] s = s"
| "run (c # cs) s = run cs (apply_call c s)"

text \<open>The invariant of the back-off state, \<open>default \<le> current \<le> max\<close>.\<close>

definition backoff_inv :: "BreakableIncrementedSleep \<Rightarrow> bool" where
  "backoff_inv s = (default_timeout s \<le> current s \<and> current s \<le> max_timeout s)"

text \<open>
  The events of the completed loop iterations whose checks answered \<open>bs\<close>: one unit
  of sleep, then one check, per iteration.
\<close>

definition units :: "bool list \<Rightarrow> event list" where
  "units bs = concat (map (\<lambda>b. [Slept, Checked b]) bs)"

text \<open>Two break functions for concrete runs: never break, and break at the second check.\<close>

definition never_break :: "event list \<Rightarrow> bool" where
  "never_break tr = False"

definition break_at_second :: "event list \<Rightarrow> bool" where
  "break_at_second tr = (2 \<le> length (filter (\<lambda>e. e = Slept) tr))"

subsection \<open>URL templates\<close>

text \<open>
  Python's \<^verbatim>\<open>str(n)\<close> of a non-negative integer: its decimal digits, most significant
  first, no leading zero.
\<close>

definition digit_char :: "nat \<Rightarrow> char" where
  "digit_char d = char_of (48 + d)"

fun str_nat :: "nat \<Rightarrow> string" where
  "str_nat n = (if n < 10 then [digit_char n] else str_nat (n div 10) @ [digit_char (n mod 10)])"

declare str_nat.simps [simp del]

text \<open>What \<^verbatim>\<open>%i\<close> and \<^verbatim>\<open>str\<close> print for an integer: a minus sign for a negative one.\<close>

definition str_int :: "int \<Rightarrow> string" where
  "str_int i = (if i < 0 then CHR ''-'' # str_nat (nat (- i)) else str_nat (nat i))"

text \<open>
  The \<^verbatim>\<open>%\<close> operator on a format string with the directives the templates use,
  \<^verbatim>\<open>%s\<close> and \<^verbatim>\<open>%i\<close>. The arguments are strings or integers; too few or too many
  arguments, and a string for \<^verbatim>\<open>%i\<close>, raise \<^verbatim>\<open>TypeError\<close>.
\<close>

datatype fmt_arg = S string | I int

fun str_arg :: "fmt_arg \<Rightarrow> string" where
  "str_arg (S s) = s"
| "str_arg (I i) = str_int i"

fun py_format :: "string \<Rightarrow> fmt_arg list \<Rightarrow> exn + string" where
  "py_format [] [] = Inr []"
| "py_format [] (a # as) = Inl (TypeError ''not all arguments converted during string formatting'')"
| "py_format (c # cs) as =
     (if c = CHR ''%'' then
        (case cs of
           [] \<Rightarrow> Inl (ValueError ''incomplete format'')
         | d # ds \<Rightarrow>
             if d = CHR ''s'' then
               (case as of
                  [] \<Rightarrow> Inl (TypeError ''not enough arguments for format string'')
                | a # as' \<Rightarrow> map_sum id ((@) (str_arg a)) (py_format ds as'))
             else if d = CHR ''i'' then
               (case as of
                  [] \<Rightarrow> Inl (TypeError ''not enough arguments for format string'')
                | I n # as' \<Rightarrow> map_sum id ((@) (str_int n)) (py_format ds as')
                | S s # as' \<Rightarrow> Inl (TypeError ''%i format: a real number is required, not str''))
             else Inl (ValueError ''unsupported format character''))
      else map_sum id ((#) c) (py_format cs as))"

text \<open>The five templates, with the format strings of the source.\<close>

definition fileURL :: "string \<Rightarrow> int \<Rightarrow> exn + string" where
  "fileURL job_id file_index = py_format ''/file_%s_%i'' [S job_id, I file_index]"

definition logURL :: "string \<Rightarrow> int \<Rightarrow> exn + string" where
  "logURL job_id frame_number = py_format ''/log_%s_%i.log'' [S job_id, I frame_number]"

definition resultURL :: "string \<Rightarrow> exn + string" where
  "resultURL job_id = py_format ''/result_%s.zip'' [S job_id]"

definition renderURL :: "string \<Rightarrow> int \<Rightarrow> exn + string" where
  "renderURL job_id frame_number = py_format ''/render_%s_%i.exr'' [S job_id, I frame_number]"

definition cancelURL :: "string \<Rightarrow> exn + string" where
  "cancelURL job_id = py_format ''/cancel_%s'' [S job_id]"

subsection \<open>prefixPath\<close>

text \<open>
  The functions of the host's \<^verbatim>\<open>os\<close> and \<^verbatim>\<open>os.path\<close> modules that \<^verbatim>\<open>prefixPath\<close>
  calls. They belong to the Python installation of the machine the code runs on (POSIX
  or Windows flavour), not to this repository, so the host is a parameter. \<open>'fs\<close> is
  the state of the host's file system: \<^verbatim>\<open>os.path.exists\<close> reads it, \<^verbatim>\<open>os.mkdir\<close>
  changes it or raises.
\<close>

record 'fs host =
  os_path_isabs :: "string \<Rightarrow> bool"
  os_path_exists :: "'fs \<Rightarrow> string \<Rightarrow> bool"
  os_path_normpath :: "string \<Rightarrow> string"
  os_path_split :: "string \<Rightarrow> string \<times> string"
  os_path_join :: "string \<Rightarrow> string \<Rightarrow> string"
  os_mkdir :: "'fs \<Rightarrow> string \<Rightarrow> exn + 'fs"

text \<open>Python's slice \<^verbatim>\<open>s[a:b]\<close> for \<open>0 \<le> a \<le> b\<close>; it never raises.\<close>

definition slice :: "nat \<Rightarrow> nat \<Rightarrow> 'a list \<Rightarrow> 'a list" where
  "slice a b s = take (b - a) (drop a s)"

text \<open>The backslash, and the two-character strings \<^verbatim>\<open>":/"\<close> and \<^verbatim>\<open>":\\"\<close>.\<close>

definition backslash :: char where
  "backslash = CHR 0x5C"

definition colon_slash :: string where
  "colon_slash = [CHR '':'', CHR ''/'']"

definition colon_backslash :: string where
  "colon_backslash = [CHR '':'', backslash]"

text \<open>
  The condition of the \<^verbatim>\<open>if\<close> of \<^verbatim>\<open>prefixPath\<close>, evaluated left to right as Python's
  \<^verbatim>\<open>or\<close> and \<^verbatim>\<open>and\<close> do: the host's \<^verbatim>\<open>isabs\<close>, then the drive pattern guarded by
  the length test, then \<^verbatim>\<open>file_path[0]\<close>, which raises \<^verbatim>\<open>IndexError\<close> on the empty
  string.
\<close>

definition prefixPath_absolute :: "'fs host \<Rightarrow> string \<Rightarrow> exn + bool" where
  "prefixPath_absolute os file_path =
     (if os_path_isabs os file_path then Inr True
      else if 3 \<le> length file_path
              \<and> (slice 1 3 file_path = colon_slash \<or> slice 1 3 file_path = colon_backslash)
        then Inr True
      else (case file_path of
              [] \<Rightarrow> Inl (IndexError ''string index out of range'')
            | c # _ \<Rightarrow> Inr (c = CHR ''/'' \<or> c = backslash)))"

text \<open>
  \<^verbatim>\<open>prefixPath(prefix_directory, file_path, prefix_path, force)\<close> on the host \<open>os\<close> with
  the file system \<open>fs\<close>: the path returned and the file system left behind, or the
  exception raised. \<^verbatim>\<open>prefix_path and ...\<close> tests the string for emptiness;
  \<^verbatim>\<open>p.startswith(prefix_path)\<close> is \<open>prefix prefix_path p\<close>;
  \<^verbatim>\<open>p[len(prefix_path)+1:]\<close> is \<open>drop (length prefix_path + 1) p\<close>.
\<close>

definition prefixPath :: "'fs host \<Rightarrow> 'fs \<Rightarrow> string \<Rightarrow> string \<Rightarrow> string \<Rightarrow> bool \<Rightarrow> exn + (string \<times> 'fs)" where
  "prefixPath os fs prefix_directory file_path prefix_path force =
     (case prefixPath_absolute os file_path of
        Inl e \<Rightarrow> Inl e
      | Inr True \<Rightarrow>
          if force \<or> \<not> os_path_exists os fs file_path then
            (case os_path_split os (os_path_normpath os file_path) of
               (p, n) \<Rightarrow>
                 if prefix_path \<noteq> [] \<and> prefix prefix_path p then
                   if length prefix_path < length p then
                     (let directory = os_path_join os prefix_directory (drop (length prefix_path + 1) p)
                      in if \<not> os_path_exists os fs directory then
                           (case os_mkdir os fs directory of
                              Inl e \<Rightarrow> Inl e
                            | Inr fs' \<Rightarrow> Inr (os_path_join os directory n, fs'))
                         else Inr (os_path_join os directory n, fs))
                   else Inr (os_path_join os prefix_directory n, fs)
                 else Inr (os_path_join os prefix_directory n, fs))
          else Inr (file_path, fs)
      | Inr False \<Rightarrow> Inr (os_path_join os prefix_directory file_path, fs))"

text \<open>The path a call returned, if it returned.\<close>

definition returned_path :: "exn + (string \<times> 'fs) \<Rightarrow> string option" where
  "returned_path r = (case r of Inl e \<Rightarrow> None | Inr (path, fs) \<Rightarrow> Some path)"

subsection \<open>A POSIX host\<close>

text \<open>
  The functions of CPython's \<^verbatim>\<open>posixpath\<close>, for running \<^verbatim>\<open>prefixPath\<close> on concrete
  paths. \<^verbatim>\<open>isabs(s)\<close> is \<^verbatim>\<open>s.startswith('/')\<close>.
\<close>

definition posix_isabs :: "string \<Rightarrow> bool" where
  "posix_isabs s = prefix ''/'' s"

text \<open>
  \<^verbatim>\<open>join(a, b)\<close>: an absolute \<open>b\<close> replaces \<open>a\<close>; otherwise \<open>b\<close> is appended, after
  a slash unless \<open>a\<close> is empty or ends with one.
\<close>

definition posix_join :: "string \<Rightarrow> string \<Rightarrow> string" where
  "posix_join a b =
     (if prefix ''/'' b then b
      else if a = [] \<or> last a = CHR ''/'' then a @ b
      else a @ ''/'' @ b)"

text \<open>\<^verbatim>\<open>s.rstrip('/')\<close>.\<close>

definition rstrip_slash :: "string \<Rightarrow> string" where
  "rstrip_slash s = rev (dropWhile (\<lambda>c. c = CHR ''/'') (rev s))"

text \<open>
  \<^verbatim>\<open>split(p)\<close>: the tail is what follows the last slash, the head what precedes it,
  without its trailing slashes unless it consists of slashes only.
\<close>

definition posix_split :: "string \<Rightarrow> string \<times> string" where
  "posix_split p =
     (let tail = rev (takeWhile (\<lambda>c. c \<noteq> CHR ''/'') (rev p));
          head = take (length p - length tail) p
      in (if head \<noteq> [] \<and> head \<noteq> replicate (length head) CHR ''/'' then rstrip_slash head else head,
          tail))"

text \<open>\<^verbatim>\<open>s.split('/')\<close>: the pieces between slashes, empty ones included.\<close>

fun split_slash :: "string \<Rightarrow> string list" where
  "split_slash [] = [[]]"
| "split_slash (c # cs) =
     (if c = CHR ''/'' then [] # split_slash cs
      else (case split_slash cs of
              [] \<Rightarrow> [[c]]
            | w # ws \<Rightarrow> (c # w) # ws))"

text \<open>\<^verbatim>\<open>'/'.join(comps)\<close>.\<close>

fun join_slash :: "string list \<Rightarrow> string" where
  "join_slash [] = []"
| "join_slash [w] = w"
| "join_slash (w # ws) = w @ ''/'' @ join_slash ws"

text \<open>
  The loop of \<^verbatim>\<open>normpath\<close> over the components: empty ones and \<^verbatim>\<open>.\<close> are dropped,
  \<^verbatim>\<open>..\<close> removes the component before it where there is one to remove.
\<close>

fun normpath_comps :: "nat \<Rightarrow> string list \<Rightarrow> string list \<Rightarrow> string list" where
  "normpath_comps initial_slashes new_comps [] = new_comps"
| "normpath_comps initial_slashes new_comps (part # comps) =
     (if part = [] \<or> part = ''.'' then normpath_comps initial_slashes new_comps comps
      else if part \<noteq> ''..'' \<or> (initial_slashes = 0 \<and> new_comps = [])
                \<or> (new_comps \<noteq> [] \<and> last new_comps = ''..'')
        then normpath_comps initial_slashes (new_comps @ [part]) comps
      else if new_comps \<noteq> [] then normpath_comps initial_slashes (butlast new_comps) comps
      else normpath_comps initial_slashes new_comps comps)"

definition posix_normpath :: "string \<Rightarrow> string" where
  "posix_normpath path =
     (if path = [] then ''.''
      else
        (let initial_slashes =
               (if prefix ''/'' path then
                  (if prefix ''//'' path \<and> \<not> prefix ''///'' path then 2 else 1)
                else 0);
             comps = normpath_comps initial_slashes [] (split_slash path);
             path' = replicate initial_slashes CHR ''/'' @ join_slash comps
         in if path' = [] then ''.'' else path'))"

text \<open>
  The file system of the POSIX host: the normalised paths that exist. A path is looked
  up by its normal form, so a doubled or trailing slash names the same entry (there are
  no symbolic links, and the concrete runs use absolute paths). \<^verbatim>\<open>os.mkdir\<close>
  creates one directory: it raises \<^verbatim>\<open>FileExistsError\<close> when the path exists and
  \<^verbatim>\<open>FileNotFoundError\<close> when the path is empty or its parent directory does not
  exist; both are \<^verbatim>\<open>OSError\<close>s.
\<close>

definition posix_exists :: "string list \<Rightarrow> string \<Rightarrow> bool" where
  "posix_exists fs path = (path \<noteq> [] \<and> posix_normpath path \<in> set fs)"

definition posix_mkdir :: "string list \<Rightarrow> string \<Rightarrow> exn + string list" where
  "posix_mkdir fs path =
     (let q = posix_normpath path
      in if path = [] then Inl (OSError ''No such file or directory'')
         else if q \<in> set fs then Inl (OSError ''File exists'')
         else if fst (posix_split q) \<noteq> [] \<and> fst (posix_split q) \<notin> set fs
           then Inl (OSError ''No such file or directory'')
         else Inr (q # fs))"

definition posix :: "string list host" where
  "posix = \<lparr> os_path_isabs = posix_isabs, os_path_exists = posix_exists,
             os_path_normpath = posix_normpath, os_path_split = posix_split,
             os_path_join = posix_join, os_mkdir = posix_mkdir \<rparr>"

subsection \<open>Concrete paths and file systems\<close>



definition node_fs :: "string list" where
  "node_fs = [''/'', ''/tmp'', ''/tmp/job'']"

definition node_fs_dir :: "string list" where
  "node_fs_dir = ''/tmp/job/a'' # node_fs"

definition node_fs_file :: "string list" where
  "node_fs_file = ''/tmp/job/a/f.txt'' # node_fs_dir"

definition node_fs_flat :: "string list" where
  "node_fs_flat = ''/tmp/job/f.txt'' # node_fs"

definition nested_fs :: "string list" where
  "nested_fs = [''/'', ''/s'', ''/s/n'']"

subsection \<open>reporting\<close>

text \<open>
  The outside of the network functions: the calls the reporting sink received (severity
  and message, in order), the lines printed on standard output, and whether the
  transport connection to the master is open.
\<close>

datatype severity = ERROR | INFO

record world =
  reports :: "(severity \<times> string) list"
  stdout :: "string list"
  conn_open :: bool

text \<open>
  \<^verbatim>\<open>reporting(report, message, errorType)\<close>. \<open>report\<close> tells whether a sink was supplied
  (\<^verbatim>\<open>if report:\<close>); \<open>errorType\<close> is the exception class, or \<open>None\<close>. The function
  returns \<^verbatim>\<open>None\<close> or raises, so its result is the world or the exception.
\<close>

definition reporting :: "bool \<Rightarrow> string \<Rightarrow> (string \<Rightarrow> exn) option \<Rightarrow> world \<Rightarrow> exn + world" where
  "reporting report message errorType w =
     (let t = (case errorType of Some _ \<Rightarrow> ERROR | None \<Rightarrow> INFO)
      in if report then Inr (w\<lparr>reports := reports w @ [(t, message)]\<rparr>)
         else (case errorType of
                 Some error \<Rightarrow> Inl (error message)
               | None \<Rightarrow> Inr w))"

subsection \<open>clientScan\<close>

text \<open>
  What the datagram socket does between its creation and \<^verbatim>\<open>recvfrom(64)\<close>: it fails
  with some other \<^verbatim>\<open>OSError\<close> (the port is taken, say), it times out after the 30
  seconds set by \<^verbatim>\<open>settimeout(30)\<close>, or it delivers a packet: the payload and the
  sender's address, a pair of host and port.
\<close>

datatype recv_outcome =
    SocketError string
  | Timeout
  | Packet string "string \<times> int"

text \<open>
  \<^verbatim>\<open>clientScan(report)\<close>. \<open>py_int\<close> is the interpreter's
  \<^verbatim>\<open>int(str(buf, encoding='utf8'))\<close>, a builtin and so a parameter: it returns the number
  or raises \<^verbatim>\<open>UnicodeDecodeError\<close> or \<^verbatim>\<open>ValueError\<close>. Only \<^verbatim>\<open>socket.timeout\<close> is caught;
  the handler reports with \<^verbatim>\<open>IOError\<close> and, when that returns, gives the defaults.
\<close>

definition clientScan :: "(string \<Rightarrow> exn + int) \<Rightarrow> bool \<Rightarrow> recv_outcome \<Rightarrow> world \<Rightarrow> (exn + string \<times> int) \<times> world" where
  "clientScan py_int report net w =
     (case net of
        SocketError m \<Rightarrow> (Inl (OSError m), w)
      | Packet buf address \<Rightarrow>
          (case py_int buf of
             Inl e \<Rightarrow> (Inl e, w)
           | Inr port \<Rightarrow>
               (case reporting report ''Master server found'' None w of
                  Inl e \<Rightarrow> (Inl e, w)
                | Inr w' \<Rightarrow> (Inr (fst address, port), w')))
      | Timeout \<Rightarrow>
          (case reporting report ''No master server on network'' (Some IOError) w of
             Inl e \<Rightarrow> (Inl e, w)
           | Inr w' \<Rightarrow> (Inr ([], 8000), w')))"

text \<open>
  The value of a payload of ASCII decimal digits, as the discovery protocol sends the
  port; \<open>None\<close> for any other payload.
\<close>

definition is_digit :: "char \<Rightarrow> bool" where
  "is_digit c = (48 \<le> (of_char c :: nat) \<and> (of_char c :: nat) \<le> 57)"

definition ascii_decimal :: "string \<Rightarrow> int option" where
  "ascii_decimal s =
     (if s \<noteq> [] \<and> list_all is_digit s
      then Some (int (foldl (\<lambda>a c. 10 * a + (of_char c - 48)) 0 s))
      else None)"

text \<open>
  A stand-in for the builtin in concrete runs: it parses payloads of ASCII decimal
  digits and raises \<^verbatim>\<open>ValueError\<close> on the others.
\<close>

definition int_of_digits :: "string \<Rightarrow> exn + int" where
  "int_of_digits s =
     (case ascii_decimal s of
        Some v \<Rightarrow> Inr v
      | None \<Rightarrow> Inl (ValueError ''invalid literal for int() with base 10''))"

subsection \<open>clientVerifyVersion and clientConnection\<close>

text \<open>
  \<^verbatim>\<open>VERSION\<close>: the numbers of \<^verbatim>\<open>netrender.bl_info["version"]\<close>, each printed by
  \<^verbatim>\<open>str\<close>, joined with dots. The tuple is defined in the package's \<^verbatim>\<open>__init__\<close>, so it
  is a parameter here.
\<close>

fun join_dot :: "string list \<Rightarrow> string" where
  "join_dot [] = []"
| "join_dot [w] = w"
| "join_dot (w # ws) = w @ ''.'' @ join_dot ws"

definition VERSION :: "int list \<Rightarrow> string" where
  "VERSION bl_info_version = join_dot (map str_int bl_info_version)"

text \<open>
  What the master does with \<^verbatim>\<open>GET /version\<close>: the request or the response fails with
  an exception and no transport connection stands, or the master answers with a status
  and a body.
\<close>

datatype reply =
    NoReply exn
  | Reply int string

text \<open>
  \<^verbatim>\<open>clientVerifyVersion(conn)\<close>. \<open>decode\<close> is the interpreter's
  \<^verbatim>\<open>str(server_version, encoding='utf8')\<close>, a builtin and so a parameter: it returns the
  text or raises \<^verbatim>\<open>UnicodeDecodeError\<close>. \<^verbatim>\<open>http.client.OK\<close> is 200. The request opens
  the transport connection. \<^verbatim>\<open>str(VERSION, encoding='utf8')\<close> decodes what the module
  itself encoded, and \<^verbatim>\<open>print\<close> separates its arguments by a space.
\<close>

definition clientVerifyVersion :: "(string \<Rightarrow> exn + string) \<Rightarrow> int list \<Rightarrow> reply \<Rightarrow> world \<Rightarrow> (exn + bool) \<times> world" where
  "clientVerifyVersion decode bl_info_version master w =
     (case master of
        NoReply e \<Rightarrow> (Inl e, w)
      | Reply status server_version \<Rightarrow>
          (let w1 = w\<lparr>conn_open := True\<rparr>
           in if status \<noteq> 200 then (Inr False, w1\<lparr>conn_open := False\<rparr>)
              else if server_version \<noteq> VERSION bl_info_version then
                (let w2 = w1\<lparr>stdout := stdout w1 @ [''Incorrect server version!'']\<rparr>
                 in case decode server_version of
                      Inl e \<Rightarrow> (Inl e, w2)
                    | Inr received \<Rightarrow>
                        (Inr False,
                         w2\<lparr>stdout := stdout w2 @
                              [''expected '' @ VERSION bl_info_version @ '' received '' @ received]\<rparr>))
              else (Inr True, w1)))"

text \<open>The fields of \<^verbatim>\<open>netsettings\<close> that \<^verbatim>\<open>clientConnection\<close> reads.\<close>

record netsettings =
  server_address :: string
  server_port :: int
  use_ssl :: bool

text \<open>
  The handler \<^verbatim>\<open>except BaseException as err\<close> of \<^verbatim>\<open>clientConnection\<close>: it reports or
  prints \<^verbatim>\<open>str(err)\<close> and returns \<^verbatim>\<open>None\<close>.
\<close>

definition except_BaseException :: "bool \<Rightarrow> exn \<Rightarrow> world \<Rightarrow> (exn + (string \<times> int \<times> bool) option) \<times> world" where
  "except_BaseException report err w =
     (if report then (Inr None, w\<lparr>reports := reports w @ [(ERROR, exn_str err)]\<rparr>)
      else (Inr None, w\<lparr>stdout := stdout w @ [exn_str err]\<rparr>))"

text \<open>
  The \<^verbatim>\<open>try\<close> block of \<^verbatim>\<open>clientConnection\<close> for a resolved address and port. The
  connection object is the triple it was built from and is always truthy (\<^verbatim>\<open>if conn:\<close>);
  both platform branches build the same one, and \<^verbatim>\<open>timeout\<close> only bounds how long
  the calls block. \<open>master\<close> is what
  the host at that address answers. After a failed verification the connection is closed
  and \<^verbatim>\<open>reporting\<close> is called with \<^verbatim>\<open>ValueError\<close>; when that returns, the function falls
  off its end and returns \<^verbatim>\<open>None\<close>; when it raises, the handler of the same \<^verbatim>\<open>try\<close>
  catches it.
\<close>

definition connect_try :: "(string \<Rightarrow> exn + string) \<Rightarrow> int list \<Rightarrow> (string \<Rightarrow> int \<Rightarrow> bool \<Rightarrow> reply) \<Rightarrow> bool \<Rightarrow> string \<Rightarrow> int \<Rightarrow> bool \<Rightarrow> world \<Rightarrow> (exn + (string \<times> int \<times> bool) option) \<times> world" where
  "connect_try decode bl_info_version master report address port ssl w =
     (case clientVerifyVersion decode bl_info_version (master address port ssl) w of
        (Inl err, w') \<Rightarrow> except_BaseException report err w'
      | (Inr True, w') \<Rightarrow> (Inr (Some (address, port, ssl)), w')
      | (Inr False, w') \<Rightarrow>
          (let w'' = w'\<lparr>conn_open := False\<rparr>
           in case reporting report ''Incorrect master version'' (Some ValueError) w'' of
                Inl err \<Rightarrow> except_BaseException report err w''
              | Inr w''' \<Rightarrow> (Inr None, w''')))"

text \<open>
  \<^verbatim>\<open>clientConnection(netsettings, report, scan, timeout)\<close>. The address \<^verbatim>\<open>[default]\<close>
  is resolved by \<^verbatim>\<open>clientScan()\<close>, called without a sink and outside the \<^verbatim>\<open>try\<close>, so
  what it raises reaches the caller.
\<close>

definition clientConnection :: "(string \<Rightarrow> exn + int) \<Rightarrow> (string \<Rightarrow> exn + string) \<Rightarrow> int list \<Rightarrow> recv_outcome \<Rightarrow> (string \<Rightarrow> int \<Rightarrow> bool \<Rightarrow> reply) \<Rightarrow> netsettings \<Rightarrow> bool \<Rightarrow> bool \<Rightarrow> world \<Rightarrow> (exn + (string \<times> int \<times> bool) option) \<times> world" where
  "clientConnection py_int decode bl_info_version net master ns report scan w =
     (if server_address ns = ''[default]'' then
        (if \<not> scan then (Inr None, w)
         else (case clientScan py_int False net w of
                 (Inl e, w') \<Rightarrow> (Inl e, w')
               | (Inr (address, port), w') \<Rightarrow>
                   if address = [] then (Inr None, w')
                   else connect_try decode bl_info_version master report address port (use_ssl ns) w'))
      else connect_try decode bl_info_version master report
             (server_address ns) (server_port ns) (use_ssl ns) w)"

text \<open>
  Concrete runs: a fresh world, settings for a named master and for discovery, a master
  of another version, one that answers 404, one whose body is the byte \<^verbatim>\<open>0xFF\<close>, and
  a stand-in for the decoder that accepts ASCII bodies and rejects the others.
\<close>

definition world0 :: world where
  "world0 = \<lparr> reports = [], stdout = [], conn_open = False \<rparr>"

definition farm_settings :: netsettings where
  "farm_settings = \<lparr> server_address = ''10.0.0.1'', server_port = 8000, use_ssl = False \<rparr>"

definition default_settings :: netsettings where
  "default_settings = \<lparr> server_address = ''[default]'', server_port = 8000, use_ssl = False \<rparr>"

definition old_master :: "string \<Rightarrow> int \<Rightarrow> bool \<Rightarrow> reply" where
  "old_master address port ssl = Reply 200 ''1.3''"

definition lost_master :: "string \<Rightarrow> int \<Rightarrow> bool \<Rightarrow> reply" where
  "lost_master address port ssl = Reply 404 []"

definition decode_ascii :: "string \<Rightarrow> exn + string" where
  "decode_ascii s =
     (if list_all (\<lambda>c. (of_char c :: nat) < 128) s then Inr s
      else Inl (UnicodeDecodeError ''invalid start byte''))"

definition garbled_master :: "string \<Rightarrow> int \<Rightarrow> bool \<Rightarrow> reply" where
  "garbled_master address port ssl = Reply 200 [CHR 0xFF]"

section \<open>Properties\<close>

subsection \<open>BreakableIncrementedSleep\<close>

lemma units_simps [simp]:
  "units [] = []"
  "units (b # bs) = Slept # Checked b # units bs"
  by (simp_all add: units_def)

lemma run_fields:
  "increment (run cs s) = increment s \<and> default_timeout (run cs s) = default_timeout s
   \<and> max_timeout (run cs s) = max_timeout s \<and> break_fct (run cs s) = break_fct s"
proof (induction cs arbitrary: s)
  case Nil
  show ?case by simp
next
  case (Cons c cs)
  show ?case by (cases c) (simp_all add: Cons.IH reset_def increase_def)
qed

lemma apply_call_inv:
  assumes "default_timeout s \<le> max_timeout s" and "0 \<le> increment s" and "backoff_inv s"
  shows "backoff_inv (apply_call c s)"
  using assms by (cases c) (auto simp: backoff_inv_def reset_def increase_def)

lemma run_inv:
  assumes "default_timeout s \<le> max_timeout s" and "0 \<le> increment s" and "backoff_inv s"
  shows "backoff_inv (run cs s)"
  using assms
proof (induction cs arbitrary: s)
  case Nil
  then show ?case by simp
next
  case (Cons c cs)
  have "backoff_inv (apply_call c s)"
    using Cons.prems by (rule apply_call_inv)
  moreover have "default_timeout (apply_call c s) = default_timeout s"
    "max_timeout (apply_call c s) = max_timeout s" "increment (apply_call c s) = increment s"
    by (cases c; simp add: reset_def increase_def)+
  ultimately show ?case
    using Cons.IH[of "apply_call c s"] Cons.prems by simp
qed

text \<open>
  Claim C3, as stated: for every instance and every finite sequence of \<^verbatim>\<open>reset()\<close> and
  \<^verbatim>\<open>increase()\<close> calls, \<open>default \<le> current \<le> max\<close> holds after each call. The
  constructor checks nothing, so an instance built with \<open>default > max\<close> breaks it at the
  first \<^verbatim>\<open>increase()\<close>: with increment 1, default 10 and max 5 the call sets
  \<open>current = min (10 + 1) 5 = 5\<close>, below the default.
\<close>

theorem backoff_invariant_counterexample:
  "\<not> backoff_inv (run [Increase] (init 1 10 5 never_break))"
  by (simp add: backoff_inv_def init_def increase_def)

text \<open>
  Claim C3, amended: for every instance constructed with \<open>default \<le> max\<close> and a
  non-negative increment, \<open>default \<le> current \<le> max\<close> holds after every finite sequence
  of \<^verbatim>\<open>reset()\<close> and \<^verbatim>\<open>increase()\<close> calls. The sequence \<open>cs\<close> is arbitrary, so the
  invariant holds after each call of a sequence (each prefix is a sequence), and for the
  fresh instance.
\<close>

theorem backoff_invariant:
  assumes "default_t \<le> max_t" and "0 \<le> incr"
  shows "backoff_inv (run cs (init incr default_t max_t brk))"
  using assms by (intro run_inv) (simp_all add: init_def backoff_inv_def)

theorem backoff_invariant_witness:
  "(5::int) \<le> 20 \<and> (0::int) \<le> 5
   \<and> backoff_inv (run [Increase, Increase, Reset, Increase] (init 5 5 20 never_break))
   \<and> current (run [Increase, Increase, Reset, Increase] (init 5 5 20 never_break)) = 10"
  using backoff_invariant[of 5 20 5 "[Increase, Increase, Reset, Increase]" never_break]
  by (simp add: init_def increase_def reset_def)

lemma run_Increase_le:
  "max_timeout s = m \<Longrightarrow> current s \<le> m \<Longrightarrow> current (run (replicate k Increase) s) \<le> m"
  by (induction k arbitrary: s) (simp_all add: increase_def)

text \<open>
  Claim C7: \<^verbatim>\<open>increase()\<close> sets \<open>current\<close> to \<open>min (current + increment) max\<close> and
  \<^verbatim>\<open>reset()\<close> sets it to \<open>default\<close>, for every instance; from default 5, increment 5
  and max 20, zero to four successive \<^verbatim>\<open>increase()\<close> calls give 5, 10, 15, 20, 20, no
  number of them exceeds 20, and a \<^verbatim>\<open>reset()\<close> after any sequence of calls gives 5.
\<close>

theorem backoff_arithmetic:
  "current (increase s) = min (current s + increment s) (max_timeout s)
   \<and> current (reset s) = default_timeout s
   \<and> map (\<lambda>k. current (run (replicate k Increase) (init 5 5 20 brk))) [0, 1, 2, 3, 4]
       = [5, 10, 15, 20, 20]
   \<and> current (run (replicate k Increase) (init 5 5 20 brk)) \<le> 20
   \<and> current (reset (run cs (init 5 5 20 brk))) = 5"
proof -
  have a: "current (increase s) = min (current s + increment s) (max_timeout s)"
    by (simp add: increase_def)
  have b: "current (reset s) = default_timeout s"
    by (simp add: reset_def)
  have c: "map (\<lambda>k. current (run (replicate k Increase) (init 5 5 20 brk))) [0, 1, 2, 3, 4]
       = [5, 10, 15, 20, 20]"
    by (simp add: numeral_eq_Suc init_def increase_def)
  have d: "current (run (replicate k Increase) (init 5 5 20 brk)) \<le> 20"
    by (rule run_Increase_le) (simp_all add: init_def)
  have e: "current (reset (run cs (init 5 5 20 brk))) = 5"
    using run_fields[of cs "init 5 5 20 brk"] by (simp add: reset_def init_def)
  from a b c d e show ?thesis by blast
qed

text \<open>
  The loop of \<^verbatim>\<open>sleep()\<close>: it appends whole iterations only, at most \<open>n\<close> of them; the
  \<open>i\<close>-th answer is what the break function said right after the \<open>i\<close>-th unit of sleep;
  a true answer is the last one; and the loop stops short of \<open>n\<close> iterations only on a
  true answer.
\<close>

lemma sleep_loop_shape:
  "\<exists>bs. sleep_loop brk n tr = tr @ units bs
      \<and> length bs \<le> n
      \<and> (\<forall>i<length bs. bs ! i = brk (tr @ units (take i bs) @ [Slept]))
      \<and> (\<forall>i<length bs. bs ! i \<longrightarrow> Suc i = length bs)
      \<and> (length bs < n \<longrightarrow> bs \<noteq> [] \<and> last bs)"
proof (induction n arbitrary: tr)
  case 0
  show ?case by (rule exI[of _ "[]"]) simp
next
  case (Suc n)
  show ?case
  proof (cases "brk (tr @ [Slept])")
    case True
    then show ?thesis by (intro exI[of _ "[True]"]) simp
  next
    case False
    from Suc.IH[of "tr @ [Slept, Checked False]"] obtain bs where
      bs: "sleep_loop brk n (tr @ [Slept, Checked False]) = (tr @ [Slept, Checked False]) @ units bs"
        "length bs \<le> n"
        "\<forall>i<length bs. bs ! i = brk ((tr @ [Slept, Checked False]) @ units (take i bs) @ [Slept])"
        "\<forall>i<length bs. bs ! i \<longrightarrow> Suc i = length bs"
        "length bs < n \<longrightarrow> bs \<noteq> [] \<and> last bs"
      by blast
    let ?cs = "False # bs"
    have 1: "sleep_loop brk (Suc n) tr = tr @ units ?cs"
      using False bs(1) by simp
    have 2: "length ?cs \<le> Suc n"
      using bs(2) by simp
    have 3: "\<forall>i<length ?cs. ?cs ! i = brk (tr @ units (take i ?cs) @ [Slept])"
    proof (intro allI impI)
      fix i assume "i < length ?cs"
      then show "?cs ! i = brk (tr @ units (take i ?cs) @ [Slept])"
        using False bs(3) by (cases i) simp_all
    qed
    have 4: "\<forall>i<length ?cs. ?cs ! i \<longrightarrow> Suc i = length ?cs"
    proof (intro allI impI)
      fix i assume "i < length ?cs" "?cs ! i"
      then show "Suc i = length ?cs"
        using bs(4) by (cases i) simp_all
    qed
    have 5: "length ?cs < Suc n \<longrightarrow> ?cs \<noteq> [] \<and> last ?cs"
      using bs(5) by auto
    from 1 2 3 4 5 show ?thesis by blast
  qed
qed

text \<open>
  Claim C8: \<^verbatim>\<open>sleep()\<close> performs at most \<open>current\<close> one-unit sleeps (none when
  \<open>current \<le> 0\<close>), asks the break function after each unit, returns as soon as it
  answers true, and calls \<^verbatim>\<open>increase()\<close> exactly once on the way out, interrupted or not.
  The events added to the trace are \<open>units bs @ [Increased]\<close>: \<open>length bs\<close> pairs of one
  sleep and one check, then the single \<open>Increased\<close>; the instance returned is
  \<open>increase s\<close>; a true answer can only be the last one; and fewer than \<open>current\<close> units
  are slept only when the last answer was true. The break function is a predicate that
  answers; one that raises is outside this model.
\<close>

theorem sleep_units_and_increase:
  "\<exists>bs. snd (sleep s tr) = tr @ units bs @ [Increased]
      \<and> fst (sleep s tr) = increase s
      \<and> int (length bs) \<le> max 0 (current s)
      \<and> (\<forall>i<length bs. bs ! i = break_fct s (tr @ units (take i bs) @ [Slept]))
      \<and> (\<forall>i<length bs. bs ! i \<longrightarrow> Suc i = length bs)
      \<and> (int (length bs) < current s \<longrightarrow> bs \<noteq> [] \<and> last bs)"
proof -
  from sleep_loop_shape[of "break_fct s" "nat (current s)" tr] obtain bs where
    bs: "sleep_loop (break_fct s) (nat (current s)) tr = tr @ units bs"
      "length bs \<le> nat (current s)"
      "\<forall>i<length bs. bs ! i = break_fct s (tr @ units (take i bs) @ [Slept])"
      "\<forall>i<length bs. bs ! i \<longrightarrow> Suc i = length bs"
      "length bs < nat (current s) \<longrightarrow> bs \<noteq> [] \<and> last bs"
    by blast
  have a: "snd (sleep s tr) = tr @ units bs @ [Increased]"
    using bs(1) by (simp add: sleep_def)
  have b: "fst (sleep s tr) = increase s"
    by (simp add: sleep_def)
  have c: "int (length bs) \<le> max 0 (current s)"
    using bs(2) by linarith
  have d: "int (length bs) < current s \<longrightarrow> bs \<noteq> [] \<and> last bs"
    using bs(5) by auto
  from a b c bs(3) bs(4) d show ?thesis by blast
qed

theorem sleep_units_and_increase_witness:
  "snd (sleep (init 5 3 20 break_at_second) []) = units [False, True] @ [Increased]
   \<and> int (length [False, True]) < current (init 5 3 20 break_at_second)
   \<and> last [False, True]
   \<and> current (fst (sleep (init 5 3 20 break_at_second) [])) = 8
   \<and> snd (sleep (init 5 3 20 never_break) []) = units [False, False, False] @ [Increased]"
  using sleep_units_and_increase[of "init 5 3 20 break_at_second" "[]"]
  by (simp add: sleep_def init_def increase_def break_at_second_def never_break_def numeral_eq_Suc)

subsection \<open>URL templates\<close>

lemma fileURL_shape: "fileURL j i = Inr (''/file_'' @ j @ ''_'' @ str_int i)"
  by (simp add: fileURL_def)

lemma logURL_shape: "logURL j i = Inr (''/log_'' @ j @ ''_'' @ str_int i @ ''.log'')"
  by (simp add: logURL_def)

lemma resultURL_shape: "resultURL j = Inr (''/result_'' @ j @ ''.zip'')"
  by (simp add: resultURL_def)

lemma renderURL_shape: "renderURL j i = Inr (''/render_'' @ j @ ''_'' @ str_int i @ ''.exr'')"
  by (simp add: renderURL_def)

lemma cancelURL_shape: "cancelURL j = Inr (''/cancel_'' @ j)"
  by (simp add: cancelURL_def)

lemma of_char_digit: "d < 10 \<Longrightarrow> (of_char (digit_char d) :: nat) = 48 + d"
  unfolding digit_char_def by (simp only: of_char_of) simp

lemma digit_char_inj:
  assumes "a < 10" and "b < 10" and "digit_char a = digit_char b"
  shows "a = b"
proof -
  have "(of_char (digit_char a) :: nat) = of_char (digit_char b)"
    using assms(3) by (rule arg_cong)
  then have "48 + a = 48 + b"
    by (simp only: of_char_digit[OF assms(1)] of_char_digit[OF assms(2)])
  then show ?thesis by simp
qed

lemma str_nat_nonempty: "str_nat n \<noteq> []"
  by (subst str_nat.simps) simp

lemma str_nat_digits: "c \<in> set (str_nat n) \<Longrightarrow> \<exists>d<10. c = digit_char d"
proof (induction n rule: str_nat.induct)
  case (1 n)
  show ?case
  proof (cases "n < 10")
    case True
    with "1.prems" show ?thesis by (subst (asm) str_nat.simps) auto
  next
    case False
    with "1.prems" have "c \<in> set (str_nat (n div 10)) \<or> c = digit_char (n mod 10)"
      by (subst (asm) str_nat.simps) auto
    then show ?thesis
    proof
      assume "c \<in> set (str_nat (n div 10))"
      with "1.IH" False show ?thesis by blast
    next
      assume "c = digit_char (n mod 10)"
      moreover have "n mod 10 < 10" by simp
      ultimately show ?thesis by blast
    qed
  qed
qed

lemma str_nat_inj: "str_nat m = str_nat n \<Longrightarrow> m = n"
proof (induction m arbitrary: n rule: str_nat.induct)
  case (1 m)
  show ?case
  proof (cases "m < 10")
    case mlt: True
    show ?thesis
    proof (cases "n < 10")
      case True
      from "1.prems" mlt True have "digit_char m = digit_char n"
        by (subst (asm) str_nat.simps, subst (asm) (2) str_nat.simps) simp
      with mlt True show ?thesis by (intro digit_char_inj)
    next
      case False
      have "str_nat m = [digit_char m]" using mlt by (subst str_nat.simps) simp
      moreover have "str_nat n = str_nat (n div 10) @ [digit_char (n mod 10)]"
        using False by (subst str_nat.simps) simp
      ultimately have "str_nat (n div 10) = []" using "1.prems" by simp
      then show ?thesis using str_nat_nonempty by blast
    qed
  next
    case mge: False
    have em: "str_nat m = str_nat (m div 10) @ [digit_char (m mod 10)]"
      using mge by (subst str_nat.simps) simp
    show ?thesis
    proof (cases "n < 10")
      case True
      have "str_nat n = [digit_char n]" using True by (subst str_nat.simps) simp
      with em "1.prems" have "str_nat (m div 10) = []" by simp
      then show ?thesis using str_nat_nonempty by blast
    next
      case False
      have en: "str_nat n = str_nat (n div 10) @ [digit_char (n mod 10)]"
        using False by (subst str_nat.simps) simp
      from em en "1.prems" have a: "str_nat (m div 10) = str_nat (n div 10)"
        and b: "digit_char (m mod 10) = digit_char (n mod 10)" by simp_all
      from "1.IH"[OF mge a] have "m div 10 = n div 10" .
      moreover from b have "m mod 10 = n mod 10" by (intro digit_char_inj) simp_all
      ultimately show ?thesis by (metis div_mult_mod_eq)
    qed
  qed
qed

lemma digit_char_neq:
  assumes "d < 10" and "(of_char c :: nat) < 48 \<or> 57 < (of_char c :: nat)"
  shows "digit_char d \<noteq> c"
proof
  assume "digit_char d = c"
  then have "(of_char c :: nat) = 48 + d"
    using of_char_digit[OF assms(1)] by simp
  with assms show False by linarith
qed

lemma str_nat_no_char:
  assumes "(of_char c :: nat) < 48 \<or> 57 < (of_char c :: nat)"
  shows "c \<notin> set (str_nat n)"
proof
  assume "c \<in> set (str_nat n)"
  then obtain d where "d < 10" "c = digit_char d"
    using str_nat_digits by blast
  with digit_char_neq[OF \<open>d < 10\<close> assms] show False by simp
qed

lemma underscore_notin_str_int: "CHR ''_'' \<notin> set (str_int i)"
proof -
  have "CHR ''_'' \<notin> set (str_nat n)" for n
    by (rule str_nat_no_char) simp
  then show ?thesis by (simp add: str_int_def)
qed

lemma str_int_inj:
  assumes "str_int i = str_int k"
  shows "i = k"
proof -
  have minus: "CHR ''-'' \<notin> set (str_nat n)" for n
    by (rule str_nat_no_char) simp
  have hd_nat: "hd (str_nat n) \<noteq> CHR ''-''" for n
    using minus[of n] str_nat_nonempty[of n] by (cases "str_nat n") auto
  show ?thesis
  proof (cases "i < 0")
    case ineg: True
    show ?thesis
    proof (cases "k < 0")
      case True
      with ineg assms have "str_nat (nat (- i)) = str_nat (nat (- k))"
        by (simp add: str_int_def)
      then have "nat (- i) = nat (- k)" by (rule str_nat_inj)
      with ineg True show ?thesis by linarith
    next
      case False
      with ineg assms have "CHR ''-'' # str_nat (nat (- i)) = str_nat (nat k)"
        by (simp add: str_int_def)
      then have "hd (str_nat (nat k)) = CHR ''-''" by (metis list.sel(1))
      with hd_nat show ?thesis by blast
    qed
  next
    case ipos: False
    show ?thesis
    proof (cases "k < 0")
      case True
      with ipos assms have "str_nat (nat i) = CHR ''-'' # str_nat (nat (- k))"
        by (simp add: str_int_def)
      then have "hd (str_nat (nat i)) = CHR ''-''" by (metis list.sel(1))
      with hd_nat show ?thesis by blast
    next
      case False
      with ipos assms have "str_nat (nat i) = str_nat (nat k)"
        by (simp add: str_int_def)
      then have "nat i = nat k" by (rule str_nat_inj)
      with ipos False show ?thesis by linarith
    qed
  qed
qed

lemma takeWhile_upto_sep:
  assumes "c \<notin> set xs"
  shows "takeWhile (\<lambda>y. y \<noteq> c) (xs @ c # ys) = xs"
proof -
  have "takeWhile (\<lambda>y. y \<noteq> c) (xs @ c # ys) = xs @ takeWhile (\<lambda>y. y \<noteq> c) (c # ys)"
    using assms by (intro takeWhile_append2) auto
  then show ?thesis by simp
qed

lemma split_at_first_sep:
  assumes "c \<notin> set xs" and "c \<notin> set xs'" and "xs @ c # ys = xs' @ c # ys'"
  shows "xs = xs' \<and> ys = ys'"
proof -
  have "takeWhile (\<lambda>y. y \<noteq> c) (xs @ c # ys) = takeWhile (\<lambda>y. y \<noteq> c) (xs' @ c # ys')"
    using assms(3) by simp
  then have "xs = xs'"
    by (simp only: takeWhile_upto_sep[OF assms(1)] takeWhile_upto_sep[OF assms(2)])
  with assms(3) show ?thesis by simp
qed

lemma split_at_last_sep:
  assumes "c \<notin> set s" and "c \<notin> set s'" and "a @ c # s = a' @ c # s'"
  shows "a = a' \<and> s = s'"
proof -
  from assms(3) have "rev (a @ c # s) = rev (a' @ c # s')" by simp
  then have "rev s @ c # rev a = rev s' @ c # rev a'" by simp
  moreover have "c \<notin> set (rev s)" "c \<notin> set (rev s')" using assms(1,2) by simp_all
  ultimately have "rev s = rev s' \<and> rev a = rev a'"
    by (intro split_at_first_sep)
  then show ?thesis by simp
qed

lemma key_inj:
  assumes "j @ CHR ''_'' # str_int i = j' @ CHR ''_'' # str_int i'"
  shows "j = j' \<and> i = i'"
proof -
  from split_at_last_sep[OF underscore_notin_str_int underscore_notin_str_int assms]
  have "j = j'" and "str_int i = str_int i'" by simp_all
  then show ?thesis using str_int_inj by blast
qed

lemma fileURL_inj: "(fileURL j i = fileURL j' i') = (j = j' \<and> i = i')"
proof
  assume "fileURL j i = fileURL j' i'"
  then have "j @ CHR ''_'' # str_int i = j' @ CHR ''_'' # str_int i'"
    by (simp add: fileURL_shape)
  then show "j = j' \<and> i = i'" by (rule key_inj)
qed simp

lemma logURL_inj: "(logURL j i = logURL j' i') = (j = j' \<and> i = i')"
proof
  assume "logURL j i = logURL j' i'"
  then have "(j @ CHR ''_'' # str_int i) @ ''.log'' = (j' @ CHR ''_'' # str_int i') @ ''.log''"
    by (simp add: logURL_shape)
  then have "j @ CHR ''_'' # str_int i = j' @ CHR ''_'' # str_int i'"
    by (simp only: append_same_eq)
  then show "j = j' \<and> i = i'" by (rule key_inj)
qed simp

lemma renderURL_inj: "(renderURL j i = renderURL j' i') = (j = j' \<and> i = i')"
proof
  assume "renderURL j i = renderURL j' i'"
  then have "(j @ CHR ''_'' # str_int i) @ ''.exr'' = (j' @ CHR ''_'' # str_int i') @ ''.exr''"
    by (simp add: renderURL_shape)
  then have "j @ CHR ''_'' # str_int i = j' @ CHR ''_'' # str_int i'"
    by (simp only: append_same_eq)
  then show "j = j' \<and> i = i'" by (rule key_inj)
qed simp

lemma resultURL_inj: "(resultURL j = resultURL j') = (j = j')"
  by (simp add: resultURL_shape)

lemma cancelURL_inj: "(cancelURL j = cancelURL j') = (j = j')"
  by (simp add: cancelURL_shape)

lemma cross_template:
  "fileURL j i \<noteq> logURL j' i'" "fileURL j i \<noteq> resultURL j'" "fileURL j i \<noteq> renderURL j' i'"
  "fileURL j i \<noteq> cancelURL j'" "logURL j i \<noteq> resultURL j'" "logURL j i \<noteq> renderURL j' i'"
  "logURL j i \<noteq> cancelURL j'" "resultURL j \<noteq> renderURL j' i'" "resultURL j \<noteq> cancelURL j'"
  "renderURL j i \<noteq> cancelURL j'"
  by (simp_all add: fileURL_shape logURL_shape resultURL_shape renderURL_shape cancelURL_shape)


text \<open>
  Claim C4: each of \<^verbatim>\<open>fileURL\<close>, \<^verbatim>\<open>logURL\<close>, \<^verbatim>\<open>resultURL\<close>, \<^verbatim>\<open>renderURL\<close>,
  \<^verbatim>\<open>cancelURL\<close> is a function that returns exactly the path shape of the interface
  table, never raising; within one template two keys give the same URL only when they
  are the same key (job id and, where there is one, file index or frame number); and no
  URL of one template is a URL of another, whatever the keys. Job ids are arbitrary
  strings, indices and frame numbers arbitrary integers: the decimal number holds no
  underscore, so the last underscore of the URL separates it from the job id.
\<close>

theorem url_templates_collision_free:
  "fileURL j i = Inr (''/file_'' @ j @ ''_'' @ str_int i)
   \<and> logURL j i = Inr (''/log_'' @ j @ ''_'' @ str_int i @ ''.log'')
   \<and> resultURL j = Inr (''/result_'' @ j @ ''.zip'')
   \<and> renderURL j i = Inr (''/render_'' @ j @ ''_'' @ str_int i @ ''.exr'')
   \<and> cancelURL j = Inr (''/cancel_'' @ j)
   \<and> (fileURL j i = fileURL j' i') = (j = j' \<and> i = i')
   \<and> (logURL j i = logURL j' i') = (j = j' \<and> i = i')
   \<and> (resultURL j = resultURL j') = (j = j')
   \<and> (renderURL j i = renderURL j' i') = (j = j' \<and> i = i')
   \<and> (cancelURL j = cancelURL j') = (j = j')
   \<and> fileURL j i \<noteq> logURL j' i' \<and> fileURL j i \<noteq> resultURL j'
   \<and> fileURL j i \<noteq> renderURL j' i' \<and> fileURL j i \<noteq> cancelURL j'
   \<and> logURL j i \<noteq> resultURL j' \<and> logURL j i \<noteq> renderURL j' i'
   \<and> logURL j i \<noteq> cancelURL j' \<and> resultURL j \<noteq> renderURL j' i'
   \<and> resultURL j \<noteq> cancelURL j' \<and> renderURL j i \<noteq> cancelURL j'"
  by (intro conjI fileURL_shape logURL_shape resultURL_shape renderURL_shape cancelURL_shape
      fileURL_inj logURL_inj resultURL_inj renderURL_inj cancelURL_inj cross_template)

subsection \<open>prefixPath\<close>

lemma posix_simps:
  "os_path_isabs posix = posix_isabs" "os_path_exists posix = posix_exists"
  "os_path_normpath posix = posix_normpath" "os_path_split posix = posix_split"
  "os_path_join posix = posix_join" "os_mkdir posix = posix_mkdir"
  by (simp_all add: posix_def)

lemmas posix_eval = posix_simps posix_isabs_def posix_exists_def posix_normpath_def posix_split_def
  posix_join_def posix_mkdir_def rstrip_slash_def prefixPath_def prefixPath_absolute_def
  slice_def colon_slash_def colon_backslash_def backslash_def Let_def returned_path_def

text \<open>A directory that \<^verbatim>\<open>os.mkdir\<close> created exists afterwards.\<close>

lemma posix_mkdir_exists:
  assumes "posix_mkdir fs d = Inr fs'"
  shows "posix_exists fs' d"
  using assms by (auto simp: posix_mkdir_def posix_exists_def Let_def split: if_splits)

lemma prefixPath_absolute_total:
  assumes "fp \<noteq> []"
  shows "\<exists>b. prefixPath_absolute os fp = Inr b"
  using assms by (cases fp) (auto simp: prefixPath_absolute_def)

text \<open>
  Claim C10: \<^verbatim>\<open>prefixPath\<close> is well-defined only for a non-empty \<^verbatim>\<open>file_path\<close>. On the
  empty string the classification reaches \<^verbatim>\<open>file_path[0]\<close> and raises \<^verbatim>\<open>IndexError\<close>
  instead of returning a path (on every host whose \<^verbatim>\<open>isabs\<close> rejects the empty string,
  as both \<^verbatim>\<open>posixpath\<close> and \<^verbatim>\<open>ntpath\<close> do); on every non-empty string the
  classification returns a boolean.
\<close>

theorem prefixPath_empty_raises:
  "(\<not> os_path_isabs os [] \<longrightarrow>
      prefixPath_absolute os [] = Inl (IndexError ''string index out of range'')
      \<and> prefixPath os fs pd [] pp force = Inl (IndexError ''string index out of range''))
   \<and> (fp \<noteq> [] \<longrightarrow> (\<exists>b. prefixPath_absolute os fp = Inr b))"
proof (intro conjI impI)
  assume "\<not> os_path_isabs os []"
  then show a: "prefixPath_absolute os [] = Inl (IndexError ''string index out of range'')"
    by (simp add: prefixPath_absolute_def)
  then show "prefixPath os fs pd [] pp force = Inl (IndexError ''string index out of range'')"
    by (simp add: prefixPath_def)
next
  assume "fp \<noteq> []"
  then show "\<exists>b. prefixPath_absolute os fp = Inr b"
    by (rule prefixPath_absolute_total)
qed

theorem prefixPath_empty_raises_witness:
  "\<not> os_path_isabs posix []
   \<and> prefixPath posix node_fs ''/tmp/job'' [] ''/src'' False
       = Inl (IndexError ''string index out of range'')
   \<and> ''a'' \<noteq> []
   \<and> prefixPath_absolute posix ''a'' = Inr False"
  using prefixPath_empty_raises[of posix node_fs "''/tmp/job''" "''/src''" False "''a''"]
  by (simp add: posix_simps posix_isabs_def prefixPath_absolute_def backslash_def)







text \<open>The remapping branch of \<^verbatim>\<open>prefixPath\<close>, once the path is absolute and remapped.\<close>

lemma prefixPath_remapped:
  assumes "prefixPath_absolute os fp = Inr True"
    and "force \<or> \<not> os_path_exists os fs fp"
    and "os_path_split os (os_path_normpath os fp) = (p, n)"
  shows "prefixPath os fs pd fp pp force =
     (if pp \<noteq> [] \<and> prefix pp p then
        if length pp < length p then
          (let directory = os_path_join os pd (drop (length pp + 1) p)
           in if \<not> os_path_exists os fs directory then
                (case os_mkdir os fs directory of
                   Inl e \<Rightarrow> Inl e
                 | Inr fs' \<Rightarrow> Inr (os_path_join os directory n, fs'))
              else Inr (os_path_join os directory n, fs))
        else Inr (os_path_join os pd n, fs)
      else Inr (os_path_join os pd n, fs))"
  using assms by (simp add: prefixPath_def)

text \<open>
  Claim C2, as stated: for an absolute, remapped \<^verbatim>\<open>file_path\<close> whose parent directory
  \<open>p\<close> has the non-empty prefix \<^verbatim>\<open>prefix_path\<close>, the result is \<^verbatim>\<open>prefix_directory\<close>
  joined with the remainder of \<open>p\<close>, joined with the file name, intermediate directories
  being created as needed. The code creates the target directory with one \<^verbatim>\<open>os.mkdir\<close>,
  which creates a single level: for \<^verbatim>\<open>/src/a/b/f.txt\<close> under the prefix \<^verbatim>\<open>/src\<close> and the
  existing job directory \<^verbatim>\<open>/tmp/job\<close>, the remainder is \<^verbatim>\<open>a/b\<close>, \<^verbatim>\<open>/tmp/job/a\<close> does not
  exist, and the call raises instead of returning \<^verbatim>\<open>/tmp/job/a/b/f.txt\<close>.
\<close>

theorem prefixPath_remap_counterexample:
  "prefixPath_absolute posix ''/src/a/b/f.txt'' = Inr True
   \<and> posix_split (posix_normpath ''/src/a/b/f.txt'') = (''/src/a/b'', ''f.txt'')
   \<and> prefix ''/src'' ''/src/a/b''
   \<and> posix_exists node_fs ''/tmp/job''
   \<and> prefixPath posix node_fs ''/tmp/job'' ''/src/a/b/f.txt'' ''/src'' True
        = Inl (OSError ''No such file or directory'')
   \<and> returned_path (prefixPath posix node_fs ''/tmp/job'' ''/src/a/b/f.txt'' ''/src'' True)
        \<noteq> Some ''/tmp/job/a/b/f.txt''"
  by (simp add: node_fs_def posix_eval)

text \<open>
  Claim C2, amended: for every absolute \<^verbatim>\<open>file_path\<close> that is remapped (\<^verbatim>\<open>force\<close> set,
  or the path does not exist on the host), with \<open>(p, n)\<close> the split of the normalised
  path: if \<^verbatim>\<open>prefix_path\<close> is non-empty and equals \<open>p\<close>, the result is
  \<^verbatim>\<open>prefix_directory\<close> joined with \<open>n\<close>; if \<^verbatim>\<open>prefix_path\<close> is non-empty and \<open>p\<close> is
  \<^verbatim>\<open>prefix_path\<close>, a separator and a remainder \<open>r\<close>, the target directory is
  \<^verbatim>\<open>prefix_directory\<close> joined with \<open>r\<close>: when it exists the result is that directory
  joined with \<open>n\<close>, when it does not it is created by one \<^verbatim>\<open>os.mkdir\<close>, whose success
  gives the same result on the extended file system and whose failure (a missing
  intermediate directory, for one) is raised; and if \<^verbatim>\<open>prefix_path\<close> is empty or not a
  prefix of \<open>p\<close>, the result is \<^verbatim>\<open>prefix_directory\<close> joined with \<open>n\<close> alone.
\<close>

theorem prefixPath_remap:
  assumes "prefixPath_absolute os fp = Inr True"
    and "force \<or> \<not> os_path_exists os fs fp"
    and "os_path_split os (os_path_normpath os fp) = (p, n)"
  shows "(pp \<noteq> [] \<and> p = pp \<longrightarrow>
            prefixPath os fs pd fp pp force = Inr (os_path_join os pd n, fs))
       \<and> (pp \<noteq> [] \<and> p = pp @ c # r \<and> (c = CHR ''/'' \<or> c = backslash) \<longrightarrow>
            prefixPath os fs pd fp pp force =
              (if os_path_exists os fs (os_path_join os pd r)
               then Inr (os_path_join os (os_path_join os pd r) n, fs)
               else (case os_mkdir os fs (os_path_join os pd r) of
                       Inl e \<Rightarrow> Inl e
                     | Inr fs' \<Rightarrow> Inr (os_path_join os (os_path_join os pd r) n, fs'))))
       \<and> (\<not> (pp \<noteq> [] \<and> prefix pp p) \<longrightarrow>
            prefixPath os fs pd fp pp force = Inr (os_path_join os pd n, fs))"
proof (intro conjI impI)
  note eq = prefixPath_remapped[OF assms, of pd pp]
  {
    assume "pp \<noteq> [] \<and> p = pp"
    then show "prefixPath os fs pd fp pp force = Inr (os_path_join os pd n, fs)"
      by (simp add: eq)
  next
    assume h: "pp \<noteq> [] \<and> p = pp @ c # r \<and> (c = CHR ''/'' \<or> c = backslash)"
    then have "prefix pp p" "length pp < length p" "drop (length pp + 1) p = r"
      by simp_all
    with h show "prefixPath os fs pd fp pp force =
              (if os_path_exists os fs (os_path_join os pd r)
               then Inr (os_path_join os (os_path_join os pd r) n, fs)
               else (case os_mkdir os fs (os_path_join os pd r) of
                       Inl e \<Rightarrow> Inl e
                     | Inr fs' \<Rightarrow> Inr (os_path_join os (os_path_join os pd r) n, fs')))"
      by (simp add: eq Let_def)
  next
    assume "\<not> (pp \<noteq> [] \<and> prefix pp p)"
    then show "prefixPath os fs pd fp pp force = Inr (os_path_join os pd n, fs)"
      unfolding eq by auto
  }
qed

theorem prefixPath_remap_witness:
  "prefixPath posix node_fs ''/tmp/job'' ''/src/f.txt'' ''/src'' True
        = Inr (''/tmp/job/f.txt'', node_fs)
   \<and> prefixPath posix node_fs ''/tmp/job'' ''/src/a/f.txt'' ''/src'' True
        = Inr (''/tmp/job/a/f.txt'', node_fs_dir)
   \<and> prefixPath posix node_fs_dir ''/tmp/job'' ''/src/a/f.txt'' ''/src'' True
        = Inr (''/tmp/job/a/f.txt'', node_fs_dir)
   \<and> prefixPath posix node_fs ''/tmp/job'' ''/src/a/f.txt'' [] True
        = Inr (''/tmp/job/f.txt'', node_fs)
   \<and> prefixPath posix node_fs ''/tmp/job'' ''/src/a/f.txt'' ''/other'' False
        = Inr (''/tmp/job/f.txt'', node_fs)"
proof -
  have abs: "prefixPath_absolute posix ''/src/f.txt'' = Inr True"
    "prefixPath_absolute posix ''/src/a/f.txt'' = Inr True"
    by (simp_all add: posix_eval)
  have sp: "os_path_split posix (os_path_normpath posix ''/src/f.txt'') = (''/src'', ''f.txt'')"
    "os_path_split posix (os_path_normpath posix ''/src/a/f.txt'')
       = (''/src'' @ CHR ''/'' # ''a'', ''f.txt'')"
    by (simp_all add: posix_eval)
  have ne: "\<not> os_path_exists posix node_fs ''/src/a/f.txt''"
    by (simp add: node_fs_def posix_eval)
  have rm: "True \<or> \<not> os_path_exists posix fs (fp :: string)" for fs fp
    by simp
  have rm': "False \<or> \<not> os_path_exists posix node_fs ''/src/a/f.txt''"
    using ne by simp
  from prefixPath_remap[OF abs(1) rm sp(1),
      where pp="''/src''" and pd="''/tmp/job''" and fs=node_fs]
  have 1: "prefixPath posix node_fs ''/tmp/job'' ''/src/f.txt'' ''/src'' True
        = Inr (''/tmp/job/f.txt'', node_fs)"
    by (simp add: posix_simps posix_join_def)
  from prefixPath_remap[OF abs(2) rm sp(2),
      where pp="''/src''" and pd="''/tmp/job''" and fs=node_fs and c="CHR ''/''" and r="''a''"]
  have 2: "prefixPath posix node_fs ''/tmp/job'' ''/src/a/f.txt'' ''/src'' True
        = Inr (''/tmp/job/a/f.txt'', node_fs_dir)"
    by (simp add: node_fs_def node_fs_dir_def posix_eval)
  from prefixPath_remap[OF abs(2) rm sp(2),
      where pp="''/src''" and pd="''/tmp/job''" and fs=node_fs_dir and c="CHR ''/''" and r="''a''"]
  have 3: "prefixPath posix node_fs_dir ''/tmp/job'' ''/src/a/f.txt'' ''/src'' True
        = Inr (''/tmp/job/a/f.txt'', node_fs_dir)"
    by (simp add: node_fs_def node_fs_dir_def posix_eval)
  from prefixPath_remap[OF abs(2) rm sp(2), where pp="[]" and pd="''/tmp/job''" and fs=node_fs]
  have 4: "prefixPath posix node_fs ''/tmp/job'' ''/src/a/f.txt'' [] True
        = Inr (''/tmp/job/f.txt'', node_fs)"
    by (simp add: posix_simps posix_join_def)
  from prefixPath_remap[OF abs(2) rm' sp(2), where pp="''/other''" and pd="''/tmp/job''"]
  have 5: "prefixPath posix node_fs ''/tmp/job'' ''/src/a/f.txt'' ''/other'' False
        = Inr (''/tmp/job/f.txt'', node_fs)"
    by (simp add: posix_simps posix_join_def)
  from 1 2 3 4 5 show ?thesis by blast
qed

text \<open>
  Where \<^verbatim>\<open>prefix_path\<close> ends inside a directory name, the character the code removes
  "to remove separator" is a letter of that name: under the prefix \<^verbatim>\<open>/home/us\<close> the
  parent \<^verbatim>\<open>/home/user\<close> leaves the directory \<^verbatim>\<open>r\<close>.
\<close>

lemma prefixPath_strips_one_character:
  "prefixPath posix node_fs ''/tmp/job'' ''/home/user/f.txt'' ''/home/us'' True
     = Inr (''/tmp/job/r/f.txt'', ''/tmp/job/r'' # node_fs)"
  by (simp add: node_fs_def posix_eval)

text \<open>
  An absolute path that exists is returned untouched; and what a second call returns,
  given the first call's result and a file system that kept what the first call left.
\<close>

lemma prefixPath_existing_untouched:
  assumes "prefixPath_absolute os fp = Inr True" and "os_path_exists os fs fp"
  shows "prefixPath os fs pd fp pp False = Inr (fp, fs)"
  using assms by (simp add: prefixPath_def)

lemma prefixPath_second_call:
  assumes first: "prefixPath os fs pd fp pp False = Inr (r, fs1)"
    and kept: "\<forall>d. os_path_exists os fs1 d \<longrightarrow> os_path_exists os fs2 d"
    and made: "\<forall>d fs'. os_mkdir os fs d = Inr fs' \<longrightarrow> os_path_exists os fs' d"
  shows "prefixPath os fs2 pd fp pp False
     = Inr (if prefixPath_absolute os fp = Inr True \<and> \<not> os_path_exists os fs fp
               \<and> os_path_exists os fs2 fp
            then fp else r, fs2)"
proof (cases "prefixPath_absolute os fp")
  case (Inl e)
  with first show ?thesis by (simp add: prefixPath_def)
next
  case (Inr b)
  show ?thesis
  proof (cases b)
    case False
    with Inr first show ?thesis by (simp add: prefixPath_def)
  next
    case True
    with Inr have abs: "prefixPath_absolute os fp = Inr True" by simp
    show ?thesis
    proof (cases "os_path_exists os fs fp")
      case ex: True
      with abs first have "r = fp" and "fs1 = fs" by (simp_all add: prefixPath_def)
      with ex kept have "os_path_exists os fs2 fp" by blast
      with abs ex \<open>r = fp\<close> show ?thesis
        by (simp add: prefixPath_existing_untouched)
    next
      case nex: False
      show ?thesis
      proof (cases "os_path_exists os fs2 fp")
        case True
        with abs nex show ?thesis
          by (simp add: prefixPath_existing_untouched)
      next
        case nex2: False
        obtain p n where sp: "os_path_split os (os_path_normpath os fp) = (p, n)"
          by (cases "os_path_split os (os_path_normpath os fp)")
        note e1 = prefixPath_remapped[OF abs disjI2 sp, OF nex, of pd pp]
        note e2 = prefixPath_remapped[OF abs disjI2 sp, OF nex2, of pd pp]
        have "prefixPath os fs2 pd fp pp False = Inr (r, fs2)"
        proof (cases "pp \<noteq> [] \<and> prefix pp p \<and> length pp < length p")
          case False
          then have "prefixPath os fs pd fp pp False = Inr (os_path_join os pd n, fs)"
            and "prefixPath os fs2 pd fp pp False = Inr (os_path_join os pd n, fs2)"
            unfolding e1 e2 by auto
          with first show ?thesis by simp
        next
          case deep: True
          let ?d = "os_path_join os pd (drop (length pp + 1) p)"
          have r: "r = os_path_join os ?d n \<and> os_path_exists os fs1 ?d"
          proof (cases "os_path_exists os fs ?d")
            case True
            with deep first e1 show ?thesis by (simp add: Let_def)
          next
            case False
            with deep first e1 obtain fs' where "os_mkdir os fs ?d = Inr fs'"
              and "r = os_path_join os ?d n" and "fs1 = fs'"
              by (cases "os_mkdir os fs ?d") (simp_all add: Let_def)
            with made show ?thesis by blast
          qed
          with kept have "os_path_exists os fs2 ?d" by blast
          with deep r show ?thesis by (simp add: e2 Let_def)
        qed
        with nex2 show ?thesis by simp
      qed
    qed
  qed
qed

text \<open>
  Claim C9, as stated: with \<^verbatim>\<open>force=False\<close>, once the target file exists where the first
  call resolved it, a second call with the same arguments returns the same path. Where
  the job directory \<^verbatim>\<open>/s/n\<close> lies below the prefix path \<^verbatim>\<open>/s\<close>, the first call for the
  missing \<^verbatim>\<open>/s/n/n\<close> creates the directory \<^verbatim>\<open>/s/n/n\<close> and returns \<^verbatim>\<open>/s/n/n/n\<close>; the
  file is put there; the second call finds that \<^verbatim>\<open>/s/n/n\<close> exists and returns it
  untouched.
\<close>

theorem prefixPath_idempotent_counterexample:
  "\<not> posix_exists nested_fs ''/s/n/n''
   \<and> prefixPath posix nested_fs ''/s/n'' ''/s/n/n'' ''/s'' False
       = Inr (''/s/n/n/n'', ''/s/n/n'' # nested_fs)
   \<and> posix_exists (''/s/n/n/n'' # ''/s/n/n'' # nested_fs) ''/s/n/n/n''
   \<and> prefixPath posix (''/s/n/n/n'' # ''/s/n/n'' # nested_fs) ''/s/n'' ''/s/n/n'' ''/s'' False
       = Inr (''/s/n/n'', ''/s/n/n/n'' # ''/s/n/n'' # nested_fs)
   \<and> ''/s/n/n'' \<noteq> ''/s/n/n/n''"
  by (simp add: nested_fs_def posix_eval)

text \<open>
  Claim C9, amended: for fixed \<^verbatim>\<open>(prefix_directory, file_path, prefix_path)\<close> and
  \<^verbatim>\<open>force=False\<close>, if the first call returned the path \<open>r\<close> on the file system \<open>fs\<close>
  and whatever existed right after it (on \<open>fs1\<close>, the created directory included)
  still exists on the later file system \<open>fs2\<close>, as when the target file is put in
  place, then the second call changes nothing and returns \<open>r\<close> again, with one
  exception: when \<^verbatim>\<open>file_path\<close> is absolute, did not exist at the first call and exists
  at the second, the second call returns \<^verbatim>\<open>file_path\<close> itself. That is \<open>r\<close> again
  exactly when the first call resolved \<^verbatim>\<open>file_path\<close> to itself, as for
  \<^verbatim>\<open>/tmp/job/f.txt\<close> under \<^verbatim>\<open>/tmp/job\<close>. (A directory that \<^verbatim>\<open>os.mkdir\<close> created is
  taken to exist.)
\<close>

theorem prefixPath_idempotent:
  assumes first: "prefixPath os fs pd fp pp False = Inr (r, fs1)"
    and kept: "\<forall>d. os_path_exists os fs1 d \<longrightarrow> os_path_exists os fs2 d"
    and made: "\<forall>d fs'. os_mkdir os fs d = Inr fs' \<longrightarrow> os_path_exists os fs' d"
  shows "prefixPath os fs2 pd fp pp False
       = Inr (if prefixPath_absolute os fp = Inr True \<and> \<not> os_path_exists os fs fp
                 \<and> os_path_exists os fs2 fp
              then fp else r, fs2)
     \<and> ((prefixPath_absolute os fp = Inr True \<and> \<not> os_path_exists os fs fp
           \<and> os_path_exists os fs2 fp \<longrightarrow> r = fp)
         \<longrightarrow> prefixPath os fs2 pd fp pp False = Inr (r, fs2))
     \<and> (prefixPath_absolute os fp = Inr True \<and> os_path_exists os fs2 fp
         \<longrightarrow> prefixPath os fs2 pd fp pp False = Inr (fp, fs2))"
proof -
  note s = prefixPath_second_call[OF first kept made]
  have a: "(prefixPath_absolute os fp = Inr True \<and> \<not> os_path_exists os fs fp
           \<and> os_path_exists os fs2 fp \<longrightarrow> r = fp)
         \<longrightarrow> prefixPath os fs2 pd fp pp False = Inr (r, fs2)"
    unfolding s by auto
  have b: "prefixPath_absolute os fp = Inr True \<and> os_path_exists os fs2 fp
         \<longrightarrow> prefixPath os fs2 pd fp pp False = Inr (fp, fs2)"
    by (simp add: prefixPath_existing_untouched)
  from s a b show ?thesis by blast
qed

theorem prefixPath_idempotent_witness:
  "prefixPath posix node_fs ''/tmp/job'' ''/src/a/f.txt'' ''/src'' False
       = Inr (''/tmp/job/a/f.txt'', node_fs_dir)
   \<and> posix_exists node_fs_file ''/tmp/job/a/f.txt''
   \<and> prefixPath posix node_fs_file ''/tmp/job'' ''/src/a/f.txt'' ''/src'' False
       = Inr (''/tmp/job/a/f.txt'', node_fs_file)
   \<and> \<not> posix_exists node_fs ''/tmp/job/f.txt''
   \<and> prefixPath posix node_fs ''/tmp/job'' ''/tmp/job/f.txt'' ''/src'' False
       = Inr (''/tmp/job/f.txt'', node_fs)
   \<and> posix_exists node_fs_flat ''/tmp/job/f.txt''
   \<and> prefixPath posix node_fs_flat ''/tmp/job'' ''/tmp/job/f.txt'' ''/src'' False
       = Inr (''/tmp/job/f.txt'', node_fs_flat)"
proof -
  have made: "\<forall>d fs'. os_mkdir posix node_fs d = Inr fs' \<longrightarrow> os_path_exists posix fs' d"
    by (simp add: posix_simps posix_mkdir_exists)
  have first: "prefixPath posix node_fs ''/tmp/job'' ''/src/a/f.txt'' ''/src'' False
      = Inr (''/tmp/job/a/f.txt'', node_fs_dir)"
    by (simp add: node_fs_def node_fs_dir_def posix_eval)
  have target: "posix_exists node_fs_file ''/tmp/job/a/f.txt''"
    by (simp add: node_fs_file_def posix_eval)
  have still: "\<not> os_path_exists posix node_fs_file ''/src/a/f.txt''"
    by (simp add: node_fs_def node_fs_dir_def node_fs_file_def posix_eval)
  have kept: "\<forall>d. os_path_exists posix node_fs_dir d \<longrightarrow> os_path_exists posix node_fs_file d"
    by (simp add: node_fs_file_def posix_simps posix_exists_def)
  from prefixPath_idempotent[OF first kept made] still
  have second: "prefixPath posix node_fs_file ''/tmp/job'' ''/src/a/f.txt'' ''/src'' False
       = Inr (''/tmp/job/a/f.txt'', node_fs_file)"
    by simp
  have nex: "\<not> posix_exists node_fs ''/tmp/job/f.txt''"
    by (simp add: node_fs_def posix_eval)
  have first': "prefixPath posix node_fs ''/tmp/job'' ''/tmp/job/f.txt'' ''/src'' False
       = Inr (''/tmp/job/f.txt'', node_fs)"
    by (simp add: node_fs_def posix_eval)
  have target': "posix_exists node_fs_flat ''/tmp/job/f.txt''"
    by (simp add: node_fs_flat_def posix_eval)
  have kept': "\<forall>d. os_path_exists posix node_fs d \<longrightarrow> os_path_exists posix node_fs_flat d"
    by (simp add: node_fs_flat_def posix_simps posix_exists_def)
  from prefixPath_idempotent[OF first' kept' made]
  have second': "prefixPath posix node_fs_flat ''/tmp/job'' ''/tmp/job/f.txt'' ''/src'' False
       = Inr (''/tmp/job/f.txt'', node_fs_flat)"
    by simp
  from first target second nex first' target' second' show ?thesis by blast
qed


subsection \<open>clientScan\<close>

lemma int_of_digits_agrees:
  "ascii_decimal d = Some v \<Longrightarrow> int_of_digits d = Inr v"
  by (simp add: int_of_digits_def)

text \<open>
  Claim C5: when no packet arrives within the 30 seconds, \<^verbatim>\<open>clientScan\<close> without a
  sink raises the \<^verbatim>\<open>IOError\<close> "No master server on network" (the spec's
  \<^verbatim>\<open>NoMasterFound\<close>) and reports nothing; with a sink the failure becomes one
  \<^verbatim>\<open>ERROR\<close> message to the sink and the neutral default \<^verbatim>\<open>('', 8000)\<close> is returned;
  when a packet arrives whose payload the interpreter parses to a number, the sender's
  host and that number are returned (a sink, if any, gets the \<^verbatim>\<open>INFO\<close> message); and
  for every parser that reads ASCII decimal digits as Python's \<^verbatim>\<open>int\<close> does, a payload of
  ASCII decimal digits gives the sender's host and the payload's value.
\<close>

theorem clientScan_contract:
  "clientScan py_int False Timeout w = (Inl (IOError ''No master server on network''), w)
   \<and> clientScan py_int True Timeout w
        = (Inr ([], 8000), w\<lparr>reports := reports w @ [(ERROR, ''No master server on network'')]\<rparr>)
   \<and> (py_int buf = Inr port \<longrightarrow>
        clientScan py_int report (Packet buf (host, sender_port)) w
          = (Inr (host, port),
             if report then w\<lparr>reports := reports w @ [(INFO, ''Master server found'')]\<rparr> else w))
   \<and> ((\<forall>d v. ascii_decimal d = Some v \<longrightarrow> py_int d = Inr v) \<and> ascii_decimal buf = Some port \<longrightarrow>
        fst (clientScan py_int report (Packet buf (host, sender_port)) w) = Inr (host, port))"
proof -
  have a: "clientScan py_int False Timeout w = (Inl (IOError ''No master server on network''), w)"
    by (simp add: clientScan_def reporting_def)
  have b: "clientScan py_int True Timeout w
        = (Inr ([], 8000), w\<lparr>reports := reports w @ [(ERROR, ''No master server on network'')]\<rparr>)"
    by (simp add: clientScan_def reporting_def)
  have c: "clientScan py_int report (Packet buf (host, sender_port)) w
          = (Inr (host, port),
             if report then w\<lparr>reports := reports w @ [(INFO, ''Master server found'')]\<rparr> else w)"
    if "py_int buf = Inr port" for port
    using that by (simp add: clientScan_def reporting_def)
  have d: "fst (clientScan py_int report (Packet buf (host, sender_port)) w) = Inr (host, port)"
    if "(\<forall>d v. ascii_decimal d = Some v \<longrightarrow> py_int d = Inr v) \<and> ascii_decimal buf = Some port"
  proof -
    from that have "py_int buf = Inr port" by blast
    then show ?thesis by (simp add: c)
  qed
  from a b c d show ?thesis by blast
qed

lemma ascii_8000: "ascii_decimal ''8000'' = Some 8000"
  by (simp add: ascii_decimal_def is_digit_def)

theorem clientScan_contract_witness:
  "clientScan int_of_digits False Timeout world0 = (Inl (IOError ''No master server on network''), world0)
   \<and> fst (clientScan int_of_digits True Timeout world0) = Inr ([], 8000)
   \<and> reports (snd (clientScan int_of_digits True Timeout world0))
        = [(ERROR, ''No master server on network'')]
   \<and> ascii_decimal ''8000'' = Some 8000
   \<and> int_of_digits ''8000'' = Inr 8000
   \<and> clientScan int_of_digits False (Packet ''8000'' (''10.0.0.1'', 51234)) world0
        = (Inr (''10.0.0.1'', 8000), world0)"
proof -
  have p: "int_of_digits ''8000'' = Inr 8000"
    using ascii_8000 by (rule int_of_digits_agrees)
  have q: "\<forall>d v. ascii_decimal d = Some v \<longrightarrow> int_of_digits d = Inr v"
    using int_of_digits_agrees by blast
  note t = clientScan_contract[of int_of_digits world0 "''8000''" 8000 False "''10.0.0.1''" 51234]
  from t have 1: "clientScan int_of_digits False Timeout world0
      = (Inl (IOError ''No master server on network''), world0)"
    by blast
  from t have 2: "clientScan int_of_digits True Timeout world0
      = (Inr ([], 8000), world0\<lparr>reports := reports world0 @ [(ERROR, ''No master server on network'')]\<rparr>)"
    by blast
  from t p have 3: "clientScan int_of_digits False (Packet ''8000'' (''10.0.0.1'', 51234)) world0
      = (Inr (''10.0.0.1'', 8000), world0)"
    by simp
  from 1 2 3 p ascii_8000 show ?thesis by (simp add: world0_def)
qed

subsection \<open>clientVerifyVersion and clientConnection\<close>

lemma clientConnection_resolved:
  assumes "(server_address ns \<noteq> ''[default]'' \<and> address = server_address ns \<and> port = server_port ns)
      \<or> (server_address ns = ''[default]'' \<and> scan \<and> net = Packet buf (address, sender_port)
          \<and> py_int buf = Inr port \<and> address \<noteq> [])"
  shows "clientConnection py_int decode v net master ns report scan w
      = connect_try decode v master report address port (use_ssl ns) w"
  using assms
proof
  assume "server_address ns \<noteq> ''[default]'' \<and> address = server_address ns \<and> port = server_port ns"
  then show ?thesis by (simp add: clientConnection_def)
next
  assume h: "server_address ns = ''[default]'' \<and> scan \<and> net = Packet buf (address, sender_port)
          \<and> py_int buf = Inr port \<and> address \<noteq> []"
  then have "clientScan py_int False net w = (Inr (address, port), w)"
    by (simp add: clientScan_def reporting_def)
  with h show ?thesis by (simp add: clientConnection_def)
qed

lemma verify_bad_status:
  assumes "status \<noteq> 200"
  shows "clientVerifyVersion decode v (Reply status body) w = (Inr False, w\<lparr>conn_open := False\<rparr>)"
  using assms by (simp add: clientVerifyVersion_def)

lemma verify_bad_body:
  assumes "body \<noteq> VERSION v" and "decode body = Inr received"
  shows "clientVerifyVersion decode v (Reply 200 body) w
     = (Inr False, w\<lparr>conn_open := True,
          stdout := stdout w @ [''Incorrect server version!'',
                                ''expected '' @ VERSION v @ '' received '' @ received]\<rparr>)"
  using assms by (simp add: clientVerifyVersion_def)

lemma connect_try_rejected:
  assumes "clientVerifyVersion decode v (master address port ssl) w = (Inr False, w')"
  shows "connect_try decode v master report address port ssl w
     = (Inr None,
        if report then w'\<lparr>conn_open := False, reports := reports w' @ [(ERROR, ''Incorrect master version'')]\<rparr>
        else w'\<lparr>conn_open := False, stdout := stdout w' @ [''Incorrect master version'']\<rparr>)"
  using assms by (simp add: connect_try_def reporting_def except_BaseException_def)

lemmas net_eval = clientConnection_def connect_try_def clientVerifyVersion_def clientScan_def
  reporting_def except_BaseException_def decode_ascii_def
  world0_def farm_settings_def default_settings_def old_master_def lost_master_def

lemma VERSION_2_0: "VERSION [2, 0] = ''2.0''"
  by code_simp

text \<open>
  Claim C1, as stated: on a handshake failure \<^verbatim>\<open>clientConnection\<close> closes the
  connection and returns \<^verbatim>\<open>None\<close>, and without a sink the version-mismatch error is
  raised to the caller. The \<^verbatim>\<open>ValueError\<close> that \<^verbatim>\<open>reporting\<close> raises without a sink is
  raised inside the \<^verbatim>\<open>try\<close> of \<^verbatim>\<open>clientConnection\<close>, whose handler catches every
  exception, prints it and returns \<^verbatim>\<open>None\<close>: for a master of version 1.3 against the
  local 2.0 and no sink, the call returns \<^verbatim>\<open>None\<close> and raises nothing.
\<close>

theorem handshake_failure_counterexample:
  "fst (clientConnection int_of_digits decode_ascii [2, 0] Timeout old_master farm_settings False True world0)
      = Inr None
   \<and> fst (clientConnection int_of_digits decode_ascii [2, 0] Timeout old_master farm_settings False True world0)
      \<noteq> Inl (ValueError ''Incorrect master version'')
   \<and> stdout (snd (clientConnection int_of_digits decode_ascii [2, 0] Timeout old_master farm_settings False True world0))
      = [''Incorrect server version!'', ''expected 2.0 received 1.3'', ''Incorrect master version'']"
  by (simp add: net_eval VERSION_2_0)

text \<open>
  Claim C1, amended: for every established transport connection (to the configured
  address, or to the one a discovery packet gave) whose \<^verbatim>\<open>GET /version\<close> response has
  a non-OK status, or has status OK and a body that differs from \<^verbatim>\<open>VERSION\<close> and
  decodes as UTF-8, \<^verbatim>\<open>clientConnection\<close> closes the transport connection and returns
  \<^verbatim>\<open>None\<close>, never raising. With a sink, the sink receives one \<^verbatim>\<open>ERROR\<close> message
  "Incorrect master version"; without a sink, the \<^verbatim>\<open>ValueError\<close> is caught by the
  function's own handler and its message is printed on standard output (after the two
  lines \<^verbatim>\<open>clientVerifyVersion\<close> prints for a differing body).
\<close>

theorem handshake_failure:
  assumes resolved:
      "(server_address ns \<noteq> ''[default]'' \<and> address = server_address ns \<and> port = server_port ns)
      \<or> (server_address ns = ''[default]'' \<and> scan \<and> net = Packet buf (address, sender_port)
          \<and> py_int buf = Inr port \<and> address \<noteq> [])"
    and reply: "master address port (use_ssl ns) = Reply status body"
    and fails: "status \<noteq> 200 \<or> (body \<noteq> VERSION v \<and> decode body = Inr received)"
  shows "fst (clientConnection py_int decode v net master ns report scan w) = Inr None
     \<and> \<not> conn_open (snd (clientConnection py_int decode v net master ns report scan w))
     \<and> reports (snd (clientConnection py_int decode v net master ns report scan w))
         = reports w @ (if report then [(ERROR, ''Incorrect master version'')] else [])
     \<and> stdout (snd (clientConnection py_int decode v net master ns report scan w))
         = stdout w
           @ (if status = 200
              then [''Incorrect server version!'', ''expected '' @ VERSION v @ '' received '' @ received]
              else [])
           @ (if report then [] else [''Incorrect master version''])"
proof -
  have eq: "clientConnection py_int decode v net master ns report scan w
      = connect_try decode v master report address port (use_ssl ns) w"
    using resolved by (rule clientConnection_resolved)
  show ?thesis
  proof (cases "status = 200")
    case False
    from verify_bad_status[OF False, of decode v body w] reply
    have "clientVerifyVersion decode v (master address port (use_ssl ns)) w
        = (Inr False, w\<lparr>conn_open := False\<rparr>)"
      by simp
    from connect_try_rejected[where master=master and decode=decode and report=report, OF this]
      False show ?thesis
      by (simp add: eq)
  next
    case True
    with fails have "body \<noteq> VERSION v" "decode body = Inr received" by simp_all
    from verify_bad_body[where decode=decode and w=w, OF this] reply True
    have "clientVerifyVersion decode v (master address port (use_ssl ns)) w
        = (Inr False, w\<lparr>conn_open := True,
          stdout := stdout w @ [''Incorrect server version!'',
                                ''expected '' @ VERSION v @ '' received '' @ received]\<rparr>)"
      by simp
    from connect_try_rejected[where master=master and decode=decode and report=report, OF this]
      True show ?thesis
      by (simp add: eq)
  qed
qed

theorem handshake_failure_witness:
  "fst (clientConnection int_of_digits decode_ascii [2, 0] Timeout lost_master farm_settings True True world0)
      = Inr None
   \<and> \<not> conn_open (snd (clientConnection int_of_digits decode_ascii [2, 0] Timeout lost_master
             farm_settings True True world0))
   \<and> reports (snd (clientConnection int_of_digits decode_ascii [2, 0] Timeout lost_master
             farm_settings True True world0))
      = [(ERROR, ''Incorrect master version'')]
   \<and> fst (clientConnection int_of_digits decode_ascii [2, 0] (Packet ''8000'' (''10.0.0.1'', 51234))
             old_master default_settings False True world0)
      = Inr None
   \<and> \<not> conn_open (snd (clientConnection int_of_digits decode_ascii [2, 0]
             (Packet ''8000'' (''10.0.0.1'', 51234)) old_master default_settings False True world0))
   \<and> stdout (snd (clientConnection int_of_digits decode_ascii [2, 0]
             (Packet ''8000'' (''10.0.0.1'', 51234)) old_master default_settings False True world0))
      = [''Incorrect server version!'', ''expected 2.0 received 1.3'', ''Incorrect master version'']"
proof -
  have r1: "(server_address farm_settings \<noteq> ''[default]'' \<and> ''10.0.0.1'' = server_address farm_settings
        \<and> 8000 = server_port farm_settings)
      \<or> (server_address farm_settings = ''[default]'' \<and> True \<and> Timeout = Packet [] (''10.0.0.1'', 0)
          \<and> int_of_digits [] = Inr 8000 \<and> ''10.0.0.1'' \<noteq> [])"
    by (simp add: farm_settings_def)
  have m1: "lost_master ''10.0.0.1'' 8000 (use_ssl farm_settings) = Reply 404 []"
    by (simp add: lost_master_def)
  have f1: "(404::int) \<noteq> 200 \<or> ([] \<noteq> VERSION [2, 0] \<and> decode_ascii [] = Inr [])"
    by simp
  note t1 = handshake_failure[where py_int=int_of_digits and decode=decode_ascii
      and master=lost_master and report=True and w=world0, OF r1 m1 f1]
  have r2: "(server_address default_settings \<noteq> ''[default]'' \<and> ''10.0.0.1'' = server_address default_settings
        \<and> 8000 = server_port default_settings)
      \<or> (server_address default_settings = ''[default]'' \<and> True
          \<and> Packet ''8000'' (''10.0.0.1'', 51234) = Packet ''8000'' (''10.0.0.1'', 51234)
          \<and> int_of_digits ''8000'' = Inr 8000 \<and> ''10.0.0.1'' \<noteq> [])"
    using int_of_digits_agrees[OF ascii_8000] by (simp add: default_settings_def)
  have m2: "old_master ''10.0.0.1'' 8000 (use_ssl default_settings) = Reply 200 ''1.3''"
    by (simp add: old_master_def)
  have f2: "(200::int) \<noteq> 200 \<or> (''1.3'' \<noteq> VERSION [2, 0] \<and> decode_ascii ''1.3'' = Inr ''1.3'')"
    by (simp add: VERSION_2_0 decode_ascii_def)
  note t2 = handshake_failure[where py_int=int_of_digits and decode=decode_ascii
      and master=old_master and report=False and w=world0, OF r2 m2 f2]
  from t1 t2 show ?thesis
    by (simp add: world0_def VERSION_2_0)
qed

text \<open>
  A body that differs from \<^verbatim>\<open>VERSION\<close> and does not decode makes the \<^verbatim>\<open>print\<close> of
  \<^verbatim>\<open>clientVerifyVersion\<close> raise; the handler returns \<^verbatim>\<open>None\<close> and nothing closes the
  connection.
\<close>

lemma handshake_undecodable_body_stays_open:
  "clientConnection int_of_digits decode_ascii [2, 0] Timeout garbled_master farm_settings False True world0
     = (Inr None,
        \<lparr> reports = [], stdout = [''Incorrect server version!'', ''invalid start byte''],
          conn_open = True \<rparr>)"
  by (simp add: net_eval garbled_master_def VERSION_2_0)

end
